theory Spec2Isabelle
  imports Main "HOL-Library.Log_Nat" "HOL-Library.Word"
begin

section \<open>Python values used by the service\<close>

text \<open>
  The service module \<^verbatim>\<open>app/services/uniswap_v3/service.py\<close> divides two Python
  integers with the true-division operator \<^verbatim>\<open>/\<close>. On integers CPython computes the
  quotient as a binary64 float, correctly rounded (nearest, ties to even, gradual
  underflow), raises \<^verbatim>\<open>ZeroDivisionError\<close> for a zero divisor and \<^verbatim>\<open>OverflowError\<close>
  when the rounded quotient does not fit a float. A finite float is modelled by the
  rational number it denotes; the two zeros are one value, as they are for Python's
  \<^verbatim>\<open>==\<close>.
\<close>

datatype py_error = ZeroDivisionError | OverflowError | BlockNotFound | TransportError

type_synonym py_float = rat

text \<open>
  For positive \<open>x\<close> and \<open>y\<close>, the exponent \<open>e\<close> with \<open>2^e \<le> x / y < 2^(e+1)\<close>:
  the difference of the bit lengths, or one less.
\<close>

definition quot_exponent :: "int \<Rightarrow> int \<Rightarrow> int" where
  "quot_exponent x y =
     (let d = bitlen x - bitlen y
      in if (if 0 \<le> d then y * 2 ^ nat d \<le> x else y \<le> x * 2 ^ nat (- d)) then d else d - 1)"

text \<open>Integer quotient rounded to the nearest integer, a tie going to the even one.\<close>

definition div_half_even :: "int \<Rightarrow> int \<Rightarrow> int" where
  "div_half_even n d =
     (let q = n div d; r = n mod d
      in if 2 * r < d then q
         else if d < 2 * r then q + 1
         else if even q then q else q + 1)"

text \<open>
  The magnitude of the quotient of two positive integers as a binary64 value: 53
  significant bits from exponent \<open>-1022\<close> upwards, a fixed quantum \<open>2^-1074\<close> below.
\<close>

definition round_quotient :: "int \<Rightarrow> int \<Rightarrow> py_float" where
  "round_quotient x y =
     (let ex = max (quot_exponent x y) (- 1022) - 52;
          m = (if ex \<le> 0 then div_half_even (x * 2 ^ nat (- ex)) y
               else div_half_even x (y * 2 ^ nat ex))
      in of_int m * 2 powi ex)"

definition py_truediv :: "int \<Rightarrow> int \<Rightarrow> py_error + py_float" where
  "py_truediv a b =
     (if b = 0 then Inl ZeroDivisionError
      else if a = 0 then Inr 0
      else let v = round_quotient \<bar>a\<bar> \<bar>b\<bar>
           in if 2 ^ 1024 \<le> v then Inl OverflowError
              else Inr (if (a < 0) = (b < 0) then v else - v))"

section \<open>Log receipts and the repository\<close>

text \<open>
  A \<^verbatim>\<open>LogReceipt\<close> of a Swap event as the service reads it: \<^verbatim>\<open>swap.args.recipient\<close>,
  \<^verbatim>\<open>swap.args.amount0\<close>, \<^verbatim>\<open>swap.args.amount1\<close>, \<^verbatim>\<open>swap.transactionHash\<close> and
  \<^verbatim>\<open>swap.blockNumber\<close>. The amounts are Python integers.
\<close>

record swap_args =
  recipient :: string
  amount0 :: int
  amount1 :: int

record log_receipt =
  args :: swap_args
  transactionHash :: "8 word list"
  blockNumber :: nat

text \<open>
  The repository classes live in \<^verbatim>\<open>app/adapters/repositories/uniswap_v3/repository.py\<close>,
  outside the service module. The service reads these attributes of its repository:
  the two token decimals (non-negative integers), the two token symbols, the contract
  address, the client \<^verbatim>\<open>_w3\<close> (here the timestamps of the blocks the node knows) and
  the event filter \<^verbatim>\<open>_blocks\<close>. The filter is state of type \<open>'f\<close>; calling
  \<^verbatim>\<open>get_new_entries()\<close> on it returns a batch or raises, and leaves the filter in
  a new state.
\<close>

datatype transport = WSS | HTTP

record 'f repository =
  transport_kind :: transport
  token0_decimals :: nat
  token1_decimals :: nat
  token0_symbol :: string
  token1_symbol :: string
  contract_address :: string
  w3_blocks :: "nat \<rightharpoonup> int"
  get_new_entries :: "'f \<Rightarrow> (py_error + log_receipt list) \<times> 'f"

text \<open>\<^verbatim>\<open>_w3.eth.get_block(n).timestamp\<close>: the node raises when it has no block \<open>n\<close>.\<close>

definition get_block_timestamp :: "'f repository \<Rightarrow> nat \<Rightarrow> py_error + int" where
  "get_block_timestamp repo n =
     (case w3_blocks repo n of None \<Rightarrow> Inl BlockNotFound | Some ts \<Rightarrow> Inr ts)"

section \<open>The service\<close>

text \<open>
  A service object reads everything through its class attribute \<^verbatim>\<open>_repository\<close>.
  \<^verbatim>\<open>UniSwapV3WSSService\<close> binds it to the WebSocket repository;
  \<^verbatim>\<open>UniSwapV3HTTPService\<close> inherits every method and overrides the attribute only.
\<close>

record 'f service =
  repository :: "'f repository"

definition UniSwapV3WSSService :: "'f repository \<Rightarrow> 'f service" where
  "UniSwapV3WSSService wss_repository = \<lparr>repository = wss_repository\<rparr>"

definition UniSwapV3HTTPService :: "'f repository \<Rightarrow> 'f repository \<Rightarrow> 'f service" where
  "UniSwapV3HTTPService wss_repository http_repository =
     (UniSwapV3WSSService wss_repository)\<lparr>repository := http_repository\<rparr>"

text \<open>\<^verbatim>\<open>_amount0\<close> and \<^verbatim>\<open>_amount1\<close> (lines 24-58).\<close>

definition service_amount0 :: "'f service \<Rightarrow> bool \<Rightarrow> log_receipt \<Rightarrow> py_error + py_float" where
  "service_amount0 self is_reverse swap =
     (if \<not> is_reverse
      then py_truediv (amount0 (args swap)) (10 ^ token0_decimals (repository self))
      else py_truediv (amount1 (args swap)) (10 ^ token0_decimals (repository self)))"

definition service_amount1 :: "'f service \<Rightarrow> bool \<Rightarrow> log_receipt \<Rightarrow> py_error + py_float" where
  "service_amount1 self is_reverse swap =
     (if \<not> is_reverse
      then py_truediv (amount1 (args swap)) (10 ^ token1_decimals (repository self))
      else py_truediv (amount0 (args swap)) (10 ^ token1_decimals (repository self)))"

text \<open>
  Two library calls of \<^verbatim>\<open>observe\<close> are parameters of the model: \<^verbatim>\<open>HexBytes.hex()\<close>
  and \<^verbatim>\<open>str(datetime.datetime.fromtimestamp(int(t)))\<close>, which renders in the local
  time zone and raises for a timestamp outside the years the platform supports.
\<close>

record runtime =
  hex :: "8 word list \<Rightarrow> string"
  str_fromtimestamp :: "int \<Rightarrow> py_error + string"

type_synonym row =
  "string \<times> string \<times> string \<times> string \<times> string \<times> py_float \<times> py_float \<times> string \<times> string"

text \<open>
  The tuple of the comprehension (lines 74-88). Python evaluates its elements from
  left to right, so the first element that raises decides the error.
\<close>

definition observe_row ::
  "'f service \<Rightarrow> runtime \<Rightarrow> bool \<Rightarrow> string \<Rightarrow> log_receipt \<Rightarrow> py_error + row" where
  "observe_row self rt is_reverse blockchain swap =
     (case service_amount0 self is_reverse swap of
        Inl err \<Rightarrow> Inl err
      | Inr a0 \<Rightarrow>
     (case service_amount1 self is_reverse swap of
        Inl err \<Rightarrow> Inl err
      | Inr a1 \<Rightarrow>
     (case get_block_timestamp (repository self) (blockNumber swap) of
        Inl err \<Rightarrow> Inl err
      | Inr ts \<Rightarrow>
     (case str_fromtimestamp rt ts of
        Inl err \<Rightarrow> Inl err
      | Inr observed \<Rightarrow>
          Inr (blockchain,
               contract_address (repository self),
               recipient (args swap),
               token0_symbol (repository self),
               token1_symbol (repository self),
               a0,
               a1,
               hex rt (transactionHash swap),
               observed)))))"

text \<open>The list comprehension: one tuple per entry, in order, stopping at the first error.\<close>

fun observe_rows ::
  "'f service \<Rightarrow> runtime \<Rightarrow> bool \<Rightarrow> string \<Rightarrow> log_receipt list \<Rightarrow> py_error + row list" where
  "observe_rows self rt is_reverse blockchain [] = Inr []"
| "observe_rows self rt is_reverse blockchain (swap # swaps) =
     (case observe_row self rt is_reverse blockchain swap of
        Inl err \<Rightarrow> Inl err
      | Inr r \<Rightarrow>
     (case observe_rows self rt is_reverse blockchain swaps of
        Inl err \<Rightarrow> Inl err
      | Inr rs \<Rightarrow> Inr (r # rs)))"

text \<open>
  \<^verbatim>\<open>observe\<close> (lines 60-90) is a generator with a single \<^verbatim>\<open>yield\<close>, of the whole
  list. The model runs the generator to its end: the result is the error raised, or the
  sequence of yielded values, here exactly one list of tuples. The filter is drained
  before the first tuple is built, so its new state is returned in either case.
\<close>

definition observe ::
  "'f service \<Rightarrow> runtime \<Rightarrow> bool \<Rightarrow> string \<Rightarrow> 'f \<Rightarrow> (py_error + row list list) \<times> 'f" where
  "observe self rt is_reverse blockchain blocks =
     (case get_new_entries (repository self) blocks of
        (Inl err, blocks') \<Rightarrow> (Inl err, blocks')
      | (Inr swaps, blocks') \<Rightarrow>
          (case observe_rows self rt is_reverse blockchain swaps of
             Inl err \<Rightarrow> (Inl err, blocks')
           | Inr rs \<Rightarrow> (Inr [rs], blocks')))"

text \<open>\<^verbatim>\<open>x / 10**d\<close> as the program computes it, the expression both methods evaluate.\<close>

definition truediv_pow10 :: "int \<Rightarrow> nat \<Rightarrow> py_error + py_float" where
  "truediv_pow10 x d = py_truediv x (10 ^ d)"

section \<open>The specification's scaling\<close>

text \<open>
  The specification's \<open>scale(x, d) = x / 10^d\<close> is the exact quotient, a rational
  number. The finite binary64 values are the numbers \<open>m * 2^k\<close> with \<open>|m| < 2^53\<close>
  and \<open>-1074 \<le> k \<le> 971\<close>; a float is nearest to a rational when no binary64
  value is closer to it.
\<close>

definition scale :: "int \<Rightarrow> nat \<Rightarrow> rat" where
  "scale x d = of_int x / 10 ^ d"

definition binary64 :: "rat \<Rightarrow> bool" where
  "binary64 w \<longleftrightarrow> (\<exists>m k. \<bar>m\<bar> < 2 ^ 53 \<and> - 1074 \<le> k \<and> k \<le> 971 \<and> w = of_int m * 2 powi k)"

definition nearest_binary64 :: "rat \<Rightarrow> py_float \<Rightarrow> bool" where
  "nearest_binary64 q v \<longleftrightarrow> binary64 v \<and> (\<forall>w. binary64 w \<longrightarrow> \<bar>v - q\<bar> \<le> \<bar>w - q\<bar>)"

section \<open>The example of the specification\<close>

text \<open>
  A pool with 18 and 6 token decimals and one swap with raw amounts \<open>10^18\<close> and
  \<open>-2500000\<close> in block 100, the only block the node knows. The filter of the example
  repository has no state and returns that swap; the filter of the second repository
  returns it followed by a swap of block 101, which the node does not know.
\<close>

definition example_swap :: log_receipt where
  "example_swap =
     \<lparr>args = \<lparr>recipient = ''0xrecipient'', amount0 = 1000000000000000000, amount1 = - 2500000\<rparr>,
      transactionHash = [0xAB, 0xCD], blockNumber = 100\<rparr>"

definition example_later_swap :: log_receipt where
  "example_later_swap = example_swap\<lparr>transactionHash := [0xEF, 0x01], blockNumber := 101\<rparr>"

definition example_repository :: "unit repository" where
  "example_repository =
     \<lparr>transport_kind = WSS, token0_decimals = 18, token1_decimals = 6,
      token0_symbol = ''WETH'', token1_symbol = ''USDC'', contract_address = ''0xpool'',
      w3_blocks = [100 \<mapsto> 1700000000],
      get_new_entries = (\<lambda>u. (Inr [example_swap], u))\<rparr>"

definition example_unknown_block_repository :: "unit repository" where
  "example_unknown_block_repository =
     example_repository\<lparr>get_new_entries := (\<lambda>u. (Inr [example_swap, example_later_swap], u))\<rparr>"

definition example_runtime :: runtime where
  "example_runtime =
     \<lparr>hex = (\<lambda>bs. ''0xabcd''), str_fromtimestamp = (\<lambda>t. Inr ''2023-11-14 22:13:20'')\<rparr>"

section \<open>The event source\<close>

text \<open>
  Modelled from the spec: the EventSource behind \<^verbatim>\<open>_blocks.get_new_entries()\<close>. The
  filter object is built by the repository module and served by the client library,
  neither of which is part of the service module. The specification (section 4.2)
  gives its contract: \<open>pollNew()\<close> returns what has become visible since the previous
  call, the push variant by draining what accumulated since the last drain, the
  polling variant by advancing a cursor strictly forward; it fails with
  \<open>TransportError\<close> when the transport is unavailable and does not retry. The
  state is the sequence of events the transport has made visible, the cursor up to
  which they have been returned, and whether the transport is available.
\<close>

record event_source =
  visible :: "log_receipt list"
  cursor :: nat
  available :: bool


definition pollNew :: "event_source \<Rightarrow> (py_error + log_receipt list) \<times> event_source" where
  "pollNew src =
     (if \<not> available src then (Inl TransportError, src)
      else (Inr (drop (cursor src) (visible src)), src\<lparr>cursor := length (visible src)\<rparr>))"






section \<open>Accuracy of the division\<close>

lemma div_half_even_err:
  assumes "0 < d"
  shows "\<bar>(of_int (div_half_even n d) :: rat) - of_int n / of_int d\<bar> \<le> 1 / 2"
proof -
  define q where "q = n div d"
  define r where "r = n mod d"
  have n: "n = q * d + r" by (simp add: q_def r_def)
  have r: "0 \<le> r" "r < d" using assms by (simp_all add: r_def)
  have dq: "(of_int d :: rat) > 0" using assms by simp
  have quo: "(of_int n :: rat) / of_int d = of_int q + of_int r / of_int d"
    using dq by (simp add: n field_simps)
  have c1: "2 * r < d \<Longrightarrow> (of_int r :: rat) / of_int d \<le> 1 / 2"
  proof -
    assume "2 * r < d"
    then have "(of_int (2 * r) :: rat) \<le> of_int d" by (simp only: of_int_le_iff)
    then show ?thesis using dq by (simp add: field_simps)
  qed
  have c2: "d \<le> 2 * r \<Longrightarrow> 1 / 2 \<le> (of_int r :: rat) / of_int d"
  proof -
    assume "d \<le> 2 * r"
    then have "(of_int d :: rat) \<le> of_int (2 * r)" by (simp only: of_int_le_iff)
    then show ?thesis using dq by (simp add: field_simps)
  qed
  have c3: "0 \<le> (of_int r :: rat) / of_int d" "(of_int r :: rat) / of_int d < 1"
    using r dq by simp_all
  have c4: "2 * r = d \<Longrightarrow> (of_int r :: rat) / of_int d = 1 / 2"
    using c1 c2 by force
  consider "2 * r < d" | "d < 2 * r" | "2 * r = d" by linarith
  then show ?thesis
  proof cases
    case 1
    then have "div_half_even n d = q" by (simp add: div_half_even_def q_def r_def Let_def)
    then show ?thesis using c1[OF 1] c3 quo by simp
  next
    case 2
    then have "div_half_even n d = q + 1" by (simp add: div_half_even_def q_def r_def Let_def)
    then show ?thesis using c2 2 c3 quo by simp
  next
    case 3
    then have "div_half_even n d = q \<or> div_half_even n d = q + 1"
      by (simp add: div_half_even_def q_def r_def Let_def)
    then show ?thesis using c4[OF 3] quo by auto
  qed
qed

lemma quot_exponent_bounds:
  assumes "0 < x" "0 < y"
  shows "(2::rat) powi quot_exponent x y \<le> of_int x / of_int y"
    and "of_int x / of_int y < (2::rat) powi (quot_exponent x y + 1)"
proof -
  define la where "la = bitlen x"
  define lb where "lb = bitlen y"
  define q :: rat where "q = of_int x / of_int y"
  have xq: "(of_int x :: rat) > 0" and yq: "(of_int y :: rat) > 0" using assms by simp_all
  have la1: "1 \<le> la" using assms bitlen_eq_zero_iff[of x] bitlen_nonneg[of x] unfolding la_def by linarith
  have lb1: "1 \<le> lb" using assms bitlen_eq_zero_iff[of y] bitlen_nonneg[of y] unfolding lb_def by linarith
  have bx: "2 ^ nat (la - 1) \<le> x" "x < 2 ^ nat la" using bitlen_bounds[OF assms(1)] by (simp_all add: la_def)
  have by': "2 ^ nat (lb - 1) \<le> y" "y < 2 ^ nat lb" using bitlen_bounds[OF assms(2)] by (simp_all add: lb_def)
  have bxq: "(2::rat) powi (la - 1) \<le> of_int x" "(of_int x :: rat) < 2 powi la"
  proof -
    have "(of_int (2 ^ nat (la - 1)) :: rat) \<le> of_int x" using bx(1) by (simp only: of_int_le_iff)
    then show "(2::rat) powi (la - 1) \<le> of_int x" using la1 by (simp add: power_int_def)
    have "(of_int x :: rat) < of_int (2 ^ nat la)" using bx(2) by (simp only: of_int_less_iff)
    then show "(of_int x :: rat) < 2 powi la" using la1 by (simp add: power_int_def)
  qed
  have byq: "(2::rat) powi (lb - 1) \<le> of_int y" "(of_int y :: rat) < 2 powi lb"
  proof -
    have "(of_int (2 ^ nat (lb - 1)) :: rat) \<le> of_int y" using by'(1) by (simp only: of_int_le_iff)
    then show "(2::rat) powi (lb - 1) \<le> of_int y" using lb1 by (simp add: power_int_def)
    have "(of_int y :: rat) < of_int (2 ^ nat lb)" using by'(2) by (simp only: of_int_less_iff)
    then show "(of_int y :: rat) < 2 powi lb" using lb1 by (simp add: power_int_def)
  qed
  define d where "d = la - lb"
  have lo: "(2::rat) powi (d - 1) < q"
  proof -
    have "(2::rat) powi (d - 1) * of_int y < 2 powi (d - 1) * 2 powi lb"
      using byq(2) by simp
    also have "\<dots> = 2 powi (la - 1)" by (simp add: d_def power_int_add[symmetric])
    also have "\<dots> \<le> of_int x" by (rule bxq(1))
    finally show ?thesis using yq by (simp add: q_def field_simps)
  qed
  have hi: "q < (2::rat) powi (d + 1)"
  proof -
    have "of_int x < (2::rat) powi la" by (rule bxq(2))
    also have "\<dots> = 2 powi (d + 1) * 2 powi (lb - 1)" by (simp add: d_def power_int_add[symmetric])
    also have "\<dots> \<le> 2 powi (d + 1) * of_int y" using byq(1) by simp
    finally show ?thesis using yq by (simp add: q_def field_simps)
  qed
  define c where "c = (if 0 \<le> d then y * 2 ^ nat d \<le> x else y \<le> x * 2 ^ nat (- d))"
  have c_iff: "c \<longleftrightarrow> (2::rat) powi d \<le> q"
  proof (cases "0 \<le> d")
    case True
    have "c \<longleftrightarrow> (of_int (y * 2 ^ nat d) :: rat) \<le> of_int x"
      using True by (simp only: c_def of_int_le_iff if_True)
    also have "\<dots> \<longleftrightarrow> (2::rat) powi d \<le> q"
      using True yq by (simp add: q_def power_int_def field_simps)
    finally show ?thesis .
  next
    case False
    have "c \<longleftrightarrow> (of_int y :: rat) \<le> of_int (x * 2 ^ nat (- d))"
      using False by (simp only: c_def of_int_le_iff if_False)
    also have "\<dots> \<longleftrightarrow> (2::rat) powi d \<le> q"
      using False yq by (simp add: q_def power_int_def field_simps)
    finally show ?thesis .
  qed
  have qe: "quot_exponent x y = (if c then d else d - 1)"
    by (simp add: quot_exponent_def Let_def c_def d_def la_def lb_def)
  show "(2::rat) powi quot_exponent x y \<le> of_int x / of_int y"
    using c_iff lo by (auto simp: qe q_def)
  show "of_int x / of_int y < (2::rat) powi (quot_exponent x y + 1)"
    using c_iff hi by (auto simp: qe q_def)
qed


lemma scaled_half:
  fixes m q p :: rat
  assumes "0 < p" "\<bar>m - q / p\<bar> \<le> 1 / 2"
  shows "\<bar>m * p - q\<bar> \<le> p / 2"
proof -
  have "m * p - q = (m - q / p) * p" using assms(1) by (simp add: field_simps)
  then have "\<bar>m * p - q\<bar> = \<bar>m - q / p\<bar> * p" using assms(1) by (simp add: abs_mult)
  also have "\<dots> \<le> 1 / 2 * p" using assms by (simp only: mult_le_cancel_right_pos)
  finally show ?thesis by simp
qed

lemma round_quotient_quantum:
  assumes "0 < x" "0 < y" and ex: "ex = max (quot_exponent x y) (- 1022) - 52"
  shows "\<bar>round_quotient x y - of_int x / of_int y\<bar> \<le> 2 powi ex / 2"
proof -
  have yq: "(of_int y :: rat) > 0" using assms by simp
  have p: "(2::rat) powi ex > 0" by simp
  show ?thesis
  proof (cases "ex \<le> 0")
    case True
    define m where "m = div_half_even (x * 2 ^ nat (- ex)) y"
    have rq: "round_quotient x y = of_int m * 2 powi ex"
      using True by (simp add: round_quotient_def Let_def ex[symmetric] m_def)
    have "\<bar>(of_int m :: rat) - of_int (x * 2 ^ nat (- ex)) / of_int y\<bar> \<le> 1 / 2"
      unfolding m_def by (rule div_half_even_err[OF assms(2)])
    moreover have "(of_int (x * 2 ^ nat (- ex)) :: rat) / of_int y = (of_int x / of_int y) / 2 powi ex"
      using True by (simp add: power_int_def field_simps)
    ultimately have "\<bar>(of_int m :: rat) - (of_int x / of_int y) / 2 powi ex\<bar> \<le> 1 / 2"
      by (simp only:)
    then show ?thesis unfolding rq by (rule scaled_half[OF p])
  next
    case False
    define m where "m = div_half_even x (y * 2 ^ nat ex)"
    have rq: "round_quotient x y = of_int m * 2 powi ex"
      using False by (simp add: round_quotient_def Let_def ex[symmetric] m_def)
    have "0 < y * 2 ^ nat ex" using assms by simp
    then have "\<bar>(of_int m :: rat) - of_int x / of_int (y * 2 ^ nat ex)\<bar> \<le> 1 / 2"
      unfolding m_def by (rule div_half_even_err)
    moreover have "(of_int x :: rat) / of_int (y * 2 ^ nat ex) = (of_int x / of_int y) / 2 powi ex"
      using False by (simp add: power_int_def field_simps)
    ultimately have "\<bar>(of_int m :: rat) - (of_int x / of_int y) / 2 powi ex\<bar> \<le> 1 / 2"
      by (simp only:)
    then show ?thesis unfolding rq by (rule scaled_half[OF p])
  qed
qed

lemma round_quotient_normal:
  assumes "0 < x" "0 < y" and lo: "(2::rat) powi (- 1022) \<le> of_int x / of_int y"
  shows "\<bar>round_quotient x y - of_int x / of_int y\<bar> \<le> (of_int x / of_int y) / 2 ^ 53"
proof -
  define e where "e = quot_exponent x y"
  define ex where "ex = max e (- 1022) - 52"
  have b: "(2::rat) powi e \<le> of_int x / of_int y" "of_int x / of_int y < (2::rat) powi (e + 1)"
    unfolding e_def by (rule quot_exponent_bounds[OF assms(1,2)])+
  have lt: "(2::rat) powi (- 1022) < 2 powi (e + 1)"
    using lo b(2) by (rule le_less_trans)
  have "- 1022 < e + 1"
  proof (rule ccontr)
    assume "\<not> - 1022 < e + 1"
    then have "e + 1 \<le> - 1022" by simp
    then have "(2::rat) powi (e + 1) \<le> 2 powi (- 1022)"
      by (rule power_int_increasing) simp
    with lt show False by (blast dest: leD)
  qed
  then have ex': "ex = e - 52" by (simp add: ex_def)
  have "\<bar>round_quotient x y - of_int x / of_int y\<bar> \<le> 2 powi ex / 2"
    by (rule round_quotient_quantum[OF assms(1,2)]) (simp add: ex_def e_def)
  also have "(2::rat) powi ex / 2 = 2 powi e / 2 ^ 53"
    unfolding ex' by (simp add: power_int_diff)
  also have "\<dots> \<le> (of_int x / of_int y) / 2 ^ 53"
    using b(1) by (simp only: divide_right_mono zero_le_power zero_le_numeral)
  finally show ?thesis .
qed


lemma py_truediv_normal:
  assumes b: "0 < b" and a: "a \<noteq> 0"
    and lo: "(2::rat) powi (- 1022) \<le> \<bar>of_int a\<bar> / of_int b"
    and hi: "\<bar>of_int a\<bar> / of_int b \<le> (2::rat) ^ 1023"
  shows "\<exists>v. py_truediv a b = Inr v
           \<and> \<bar>v - of_int a / of_int b\<bar> \<le> \<bar>of_int a / of_int b\<bar> / 2 ^ 53
           \<and> sgn v = sgn (of_int a)"
proof -
  define q :: rat where "q = of_int \<bar>a\<bar> / of_int \<bar>b\<bar>"
  define r where "r = round_quotient \<bar>a\<bar> \<bar>b\<bar>"
  have bq: "(of_int b :: rat) > 0" using b by simp
  have q_eq: "q = \<bar>of_int a\<bar> / of_int b" using b by (simp add: q_def)
  have qpos: "0 < q" using a bq by (simp add: q_eq)
  have "(2::rat) powi (- 1022) \<le> of_int \<bar>a\<bar> / of_int \<bar>b\<bar>"
    using lo q_eq q_def by (simp only:)
  then have err: "\<bar>r - q\<bar> \<le> q / 2 ^ 53"
    unfolding r_def q_def using a b by (intro round_quotient_normal) simp_all
  have small: "q / 2 ^ 53 < q" using qpos by simp
  have rpos: "0 < r" using err small by linarith
  have "r \<le> q + q / 2 ^ 53" using err by linarith
  also have "\<dots> < q + q" using small by simp
  also have "\<dots> \<le> 2 ^ 1023 + 2 ^ 1023" using hi q_eq by (simp only: add_mono)
  also have "\<dots> = (2::rat) ^ 1024" by simp
  finally have no_overflow: "\<not> 2 ^ 1024 \<le> r" by simp
  define v where "v = (if a < 0 then - r else r)"
  have nz: "b \<noteq> 0" and nb: "\<not> b < 0" using b by simp_all
  have "py_truediv a b =
          (if 2 ^ 1024 \<le> r then Inl OverflowError
           else Inr (if (a < 0) = (b < 0) then r else - r))"
    unfolding py_truediv_def Let_def r_def by (simp only: a nz if_False)
  also have "\<dots> = Inr (if (a < 0) = (b < 0) then r else - r)"
    by (simp only: no_overflow if_False)
  also have "(if (a < 0) = (b < 0) then r else - r) = v"
    unfolding v_def using nb by (cases "a < 0") (simp_all only: if_True if_False simp_thms)
  finally have res: "py_truediv a b = Inr v" .
  have quo: "of_int a / of_int b = (if a < 0 then - q else q)"
    by (simp add: q_eq)
  have "\<bar>v - of_int a / of_int b\<bar> = \<bar>r - q\<bar>"
    unfolding quo v_def by (simp add: abs_minus_commute)
  moreover have "\<bar>of_int a / of_int b\<bar> = q" unfolding quo using qpos by simp
  moreover have "sgn v = sgn (of_int a)" using rpos a by (simp add: v_def sgn_if)
  ultimately show ?thesis using res err by simp
qed

lemma pow10_le_pow2: "d \<le> 255 \<Longrightarrow> (10::rat) ^ d \<le> 2 ^ 1022"
proof -
  assume "d \<le> 255"
  then have "(10::rat) ^ d \<le> 10 ^ 255" by (simp only: power_increasing one_le_numeral)
  also have "\<dots> \<le> 2 ^ 1022" by simp
  finally show ?thesis .
qed

lemma truediv_pow10_accuracy:
  assumes d: "d \<le> 255" and a: "\<bar>a\<bar> \<le> 2 ^ 256"
  shows "\<exists>v. truediv_pow10 a d = Inr v
           \<and> \<bar>v - of_int a / 10 ^ d\<bar> \<le> \<bar>of_int a / 10 ^ d\<bar> / 2 ^ 53
           \<and> sgn v = sgn (of_int a)"
proof (cases "a = 0")
  case True
  then show ?thesis by (simp add: truediv_pow10_def py_truediv_def)
next
  case False
  have pos: "(0::int) < 10 ^ d" by simp
  have p10: "(1::rat) \<le> 10 ^ d" by (simp only: one_le_power one_le_numeral)
  have one: "(1::rat) \<le> \<bar>of_int a\<bar>"
  proof -
    have "1 \<le> \<bar>a\<bar>" using False by linarith
    then have "(of_int 1 :: rat) \<le> of_int \<bar>a\<bar>" by (simp only: of_int_le_iff)
    then show ?thesis by simp
  qed
  have lo: "(2::rat) powi (- 1022) \<le> \<bar>of_int a\<bar> / of_int (10 ^ d)"
  proof -
    have "(2::rat) powi (- 1022) = 1 / 2 ^ 1022"
      by (simp only: power_int_minus_divide power_int_numeral)
    also have "\<dots> \<le> 1 / 10 ^ d"
      using pow10_le_pow2[OF d] by (simp add: frac_le del: power_numeral)
    also have "\<dots> \<le> \<bar>of_int a\<bar> / 10 ^ d"
      using one by (simp only: divide_right_mono zero_le_power zero_le_numeral)
    finally show ?thesis by (simp only: of_int_power of_int_numeral)
  qed
  have hi: "\<bar>of_int a\<bar> / of_int (10 ^ d) \<le> (2::rat) ^ 1023"
  proof -
    have "\<bar>of_int a :: rat\<bar> / 10 ^ d \<le> \<bar>of_int a\<bar> / 1"
      using p10 by (intro divide_left_mono) simp_all
    also have "\<dots> = of_int \<bar>a\<bar>" by simp
    also have "\<dots> \<le> of_int (2 ^ 256)" using a by (simp only: of_int_le_iff)
    also have "\<dots> \<le> (2::rat) ^ 1023" by simp
    finally show ?thesis by (simp only: of_int_power of_int_numeral)
  qed
  from py_truediv_normal[OF pos False lo hi] show ?thesis
    unfolding truediv_pow10_def by (simp only: of_int_power of_int_numeral)
qed

section \<open>The division returns a nearest float\<close>

lemma round_quotient_form:
  assumes "0 < x" "0 < y" and ex: "ex = max (quot_exponent x y) (- 1022) - 52"
  shows "\<exists>n. round_quotient x y = of_int n * 2 powi ex
           \<and> \<bar>(of_int n :: rat) - (of_int x / of_int y) / 2 powi ex\<bar> \<le> 1 / 2"
proof (cases "ex \<le> 0")
  case True
  define m where "m = div_half_even (x * 2 ^ nat (- ex)) y"
  have rq: "round_quotient x y = of_int m * 2 powi ex"
    using True by (simp add: round_quotient_def Let_def ex[symmetric] m_def)
  have "\<bar>(of_int m :: rat) - of_int (x * 2 ^ nat (- ex)) / of_int y\<bar> \<le> 1 / 2"
    unfolding m_def by (rule div_half_even_err[OF assms(2)])
  moreover have "(of_int (x * 2 ^ nat (- ex)) :: rat) / of_int y = (of_int x / of_int y) / 2 powi ex"
    using True by (simp add: power_int_def field_simps)
  ultimately have "\<bar>(of_int m :: rat) - (of_int x / of_int y) / 2 powi ex\<bar> \<le> 1 / 2"
    by (simp only:)
  with rq show ?thesis by blast
next
  case False
  define m where "m = div_half_even x (y * 2 ^ nat ex)"
  have rq: "round_quotient x y = of_int m * 2 powi ex"
    using False by (simp add: round_quotient_def Let_def ex[symmetric] m_def)
  have "0 < y * 2 ^ nat ex" using assms by simp
  then have "\<bar>(of_int m :: rat) - of_int x / of_int (y * 2 ^ nat ex)\<bar> \<le> 1 / 2"
    unfolding m_def by (rule div_half_even_err)
  moreover have "(of_int x :: rat) / of_int (y * 2 ^ nat ex) = (of_int x / of_int y) / 2 powi ex"
    using False by (simp add: power_int_def field_simps)
  ultimately have "\<bar>(of_int m :: rat) - (of_int x / of_int y) / 2 powi ex\<bar> \<le> 1 / 2"
    by (simp only:)
  with rq show ?thesis by blast
qed

lemma nearest_int:
  fixes t :: rat
  assumes "\<bar>of_int n - t\<bar> \<le> 1 / 2"
  shows "\<bar>of_int n - t\<bar> \<le> \<bar>of_int j - t\<bar>"
proof (cases "j = n")
  case True
  then show ?thesis by simp
next
  case False
  then have "1 \<le> \<bar>j - n\<bar>" by linarith
  then have "(of_int 1 :: rat) \<le> of_int \<bar>j - n\<bar>" by (simp only: of_int_le_iff)
  then have "(1::rat) \<le> \<bar>of_int j - of_int n\<bar>" by simp
  with assms show ?thesis by linarith
qed

lemma nearest_multiple:
  fixes q p :: rat
  assumes p: "0 < p" and n: "\<bar>of_int n - q / p\<bar> \<le> 1 / 2"
  shows "\<bar>of_int n * p - q\<bar> \<le> \<bar>of_int j * p - q\<bar>"
proof -
  have eq: "\<bar>of_int i * p - q\<bar> = \<bar>of_int i - q / p\<bar> * p" for i :: int
  proof -
    have "of_int i * p - q = (of_int i - q / p) * p" using p by (simp add: field_simps)
    then show ?thesis using p by (simp add: abs_mult)
  qed
  have "\<bar>of_int n - q / p\<bar> \<le> \<bar>of_int j - q / p\<bar>" using n by (rule nearest_int)
  then have "\<bar>of_int n - q / p\<bar> * p \<le> \<bar>of_int j - q / p\<bar> * p"
    using p by (simp only: mult_le_cancel_right_pos)
  then show ?thesis by (simp only: eq)
qed


lemma powi_add_nat: "(2::rat) powi (a + int n) = 2 powi a * 2 ^ n"
  by (simp add: power_int_add)

lemma binary64_uminus: "binary64 w \<Longrightarrow> binary64 (- w)"
proof -
  assume "binary64 w"
  then obtain m k where mk: "\<bar>m\<bar> < 2 ^ 53" "- 1074 \<le> k" "k \<le> 971" "w = of_int m * 2 powi k"
    unfolding binary64_def by blast
  have "\<bar>- m\<bar> < 2 ^ 53" using mk(1) by simp
  moreover have "- w = of_int (- m) * 2 powi k" using mk(4) by simp
  ultimately show ?thesis unfolding binary64_def using mk(2,3) by blast
qed

lemma binary64_zero: "binary64 0"
proof -
  have "\<bar>0::int\<bar> < 2 ^ 53" by simp
  moreover have "(0::rat) = of_int 0 * 2 powi 0" by simp
  moreover have "- 1074 \<le> (0::int)" "(0::int) \<le> 971" by simp_all
  ultimately show ?thesis unfolding binary64_def by blast
qed

lemma binary64_less: 
  assumes "binary64 w" shows "w < 2 ^ 1024"
proof -
  from assms obtain m k where mk: "\<bar>m\<bar> < 2 ^ 53" "- 1074 \<le> k" "k \<le> 971" "w = of_int m * 2 powi k"
    unfolding binary64_def by blast
  have p: "(0::rat) < 2 powi k" by simp
  have "m < 2 ^ 53" using mk(1) by linarith
  then have "(of_int m :: rat) < of_int (2 ^ 53)" by (simp only: of_int_less_iff)
  then have m': "(of_int m :: rat) < 2 ^ 53" by simp
  have "(2::rat) powi k \<le> 2 powi 971" using mk(3) by (rule power_int_increasing) simp
  then have k': "(2::rat) powi k \<le> 2 ^ 971" by (simp only: power_int_numeral)
  have "w < 2 ^ 53 * 2 powi k" unfolding mk(4) using m' p by (simp only: mult_less_cancel_right_pos)
  also have "\<dots> \<le> 2 ^ 53 * 2 ^ 971" using k' by (simp only: mult_le_cancel_left_pos zero_less_power zero_less_numeral)
  also have "\<dots> = (2::rat) ^ 1024" by (simp only: power_add[symmetric]) simp
  finally show ?thesis .
qed

lemma round_quotient_nearest:
  assumes x: "0 < x" and y: "0 < y" and hi: "(of_int x :: rat) / of_int y < 2 powi 1023"
  shows "nearest_binary64 (of_int x / of_int y) (round_quotient x y)"
proof -
  define q :: rat where "q = of_int x / of_int y"
  define e where "e = quot_exponent x y"
  define ex where "ex = max e (- 1022) - 52"
  define p :: rat where "p = 2 powi ex"
  have p: "0 < p" by (simp add: p_def)
  have b: "2 powi e \<le> q" "q < 2 powi (e + 1)"
    unfolding e_def q_def by (rule quot_exponent_bounds[OF x y])+
  have qpos: "0 < q" using x y by (simp add: q_def)
  have e_hi: "e < 1023"
  proof (rule ccontr)
    assume "\<not> e < 1023"
    then have "1023 \<le> e" by simp
    then have "(2::rat) powi 1023 \<le> 2 powi e" by (rule power_int_increasing) simp
    with b(1) hi show False unfolding q_def by linarith
  qed
  have ex_lo: "- 1074 \<le> ex" and ex_hi: "ex \<le> 970" using e_hi by (simp_all add: ex_def)
  have e1: "e + 1 \<le> ex + 53" by (simp add: ex_def)
  have p53: "(2::rat) powi (ex + 53) = p * 2 ^ 53"
    using powi_add_nat[of ex 53] by (simp only: p_def of_nat_numeral)
  have p52: "(2::rat) powi (ex + 52) = p * 2 ^ 52"
    using powi_add_nat[of ex 52] by (simp only: p_def of_nat_numeral)
  obtain n where rq: "round_quotient x y = of_int n * p"
    and nt: "\<bar>(of_int n :: rat) - q / p\<bar> \<le> 1 / 2"
    using round_quotient_form[OF x y, of ex] unfolding p_def q_def ex_def e_def by blast
  have t_pos: "0 < q / p" using qpos p by simp
  have t_hi: "q / p < 2 ^ 53"
  proof -
    have "(2::rat) powi (e + 1) \<le> 2 powi (ex + 53)" using e1 by (rule power_int_increasing) simp
    with b(2) have "q < p * 2 ^ 53" unfolding p53 by linarith
    then show ?thesis using p by (simp add: field_simps)
  qed
  have n_lo: "0 \<le> n"
  proof -
    have "(- 1 :: rat) < of_int n" using nt t_pos by linarith
    then have "(of_int (- 1) :: rat) < of_int n" by simp
    then have "- 1 < n" by (simp only: of_int_less_iff)
    then show ?thesis by simp
  qed
  have n_hi: "n \<le> 2 ^ 53"
  proof -
    have "(of_int n :: rat) < 2 ^ 53 + 1" using nt t_hi by linarith
    also have "\<dots> = of_int (2 ^ 53 + 1)" by simp
    finally have "n < 2 ^ 53 + 1" by (simp only: of_int_less_iff)
    then show ?thesis by simp
  qed
  have rep: "binary64 (round_quotient x y)"
  proof (cases "n < 2 ^ 53")
    case True
    then have "\<bar>n\<bar> < 2 ^ 53" using n_lo by simp
    moreover have "ex \<le> 971" using ex_hi by simp
    ultimately show ?thesis unfolding binary64_def rq p_def using ex_lo by blast
  next
    case False
    with n_hi have n: "n = 2 ^ 53" by simp
    have "(2::rat) powi (ex + 1) = p * 2"
      using powi_add_nat[of ex 1] by (simp add: p_def)
    then have "round_quotient x y = of_int (2 ^ 52) * 2 powi (ex + 1)"
      unfolding rq n by simp
    moreover have "\<bar>(2::int) ^ 52\<bar> < 2 ^ 53" by simp
    moreover have "- 1074 \<le> ex + 1" "ex + 1 \<le> 971" using ex_lo ex_hi by simp_all
    ultimately show ?thesis unfolding binary64_def by blast
  qed
  have near: "\<bar>round_quotient x y - q\<bar> \<le> \<bar>w - q\<bar>" if w: "binary64 w" for w
  proof -
    from w obtain m k where mk: "\<bar>m\<bar> < 2 ^ 53" "- 1074 \<le> k" "k \<le> 971" "w = of_int m * 2 powi k"
      unfolding binary64_def by blast
    show ?thesis
    proof (cases "ex \<le> k")
      case True
      have "(2::rat) powi k = 2 powi (k - ex) * p"
        by (simp add: p_def power_int_diff)
      also have "(2::rat) powi (k - ex) = of_int (2 ^ nat (k - ex))"
        using True by (simp add: power_int_def)
      finally have "w = of_int (m * 2 ^ nat (k - ex)) * p"
        unfolding mk(4) by simp
      then show ?thesis unfolding rq by (simp only: nearest_multiple[OF p nt])
    next
      case False
      then have k: "k \<le> ex - 1" by simp
      with mk(2) have "- 1022 < e" by (simp add: ex_def split: if_splits)
      then have ex': "ex + 52 = e" by (simp add: ex_def)
      have pe: "p * 2 ^ 52 \<le> q" using b(1) unfolding ex'[symmetric] p52 .
      have pk: "(0::rat) < 2 powi k" by simp
      have "(2::rat) powi k \<le> 2 powi (ex - 1)" using k by (rule power_int_increasing) simp
      also have "(2::rat) powi (ex - 1) = p / 2"
        by (simp add: p_def power_int_diff)
      finally have k': "(2::rat) powi k \<le> p / 2" .
      have "m < 2 ^ 53" using mk(1) by linarith
      then have "(of_int m :: rat) < of_int (2 ^ 53)" by (simp only: of_int_less_iff)
      then have m': "(of_int m :: rat) < 2 ^ 53" by simp
      have "w < 2 ^ 53 * 2 powi k"
        unfolding mk(4) using m' pk by (simp only: mult_less_cancel_right_pos)
      also have "\<dots> \<le> 2 ^ 53 * (p / 2)"
        using k' by (simp only: mult_le_cancel_left_pos zero_less_power zero_less_numeral)
      also have "\<dots> = p * 2 ^ 52" by simp
      finally have wp: "w < p * 2 ^ 52" .
      have "\<bar>of_int n * p - q\<bar> \<le> \<bar>of_int (2 ^ 52) * p - q\<bar>"
        using p nt by (rule nearest_multiple)
      also have "of_int (2 ^ 52) * p = p * 2 ^ 52" by simp
      also have "\<bar>p * 2 ^ 52 - q\<bar> \<le> \<bar>w - q\<bar>" using pe wp by linarith
      finally show ?thesis unfolding rq .
    qed
  qed
  show ?thesis unfolding nearest_binary64_def q_def[symmetric] using rep near by blast
qed

lemma nearest_binary64_uminus:
  assumes "nearest_binary64 q v"
  shows "nearest_binary64 (- q) (- v)"
proof -
  from assms have v: "binary64 v" and n: "\<And>w. binary64 w \<Longrightarrow> \<bar>v - q\<bar> \<le> \<bar>w - q\<bar>"
    unfolding nearest_binary64_def by blast+
  have "\<bar>- v - (- q)\<bar> \<le> \<bar>w - (- q)\<bar>" if "binary64 w" for w
  proof -
    have "\<bar>v - q\<bar> \<le> \<bar>- w - q\<bar>" using that by (intro n binary64_uminus)
    moreover have "\<bar>- v - (- q)\<bar> = \<bar>v - q\<bar>" by (simp add: abs_minus_commute)
    moreover have "\<bar>- w - q\<bar> = \<bar>w - (- q)\<bar>" by (simp add: abs_minus_commute)
    ultimately show ?thesis by (simp only:)
  qed
  with binary64_uminus[OF v] show ?thesis unfolding nearest_binary64_def by blast
qed

lemma py_truediv_nearest:
  assumes b: "0 < b" and hi: "\<bar>of_int a\<bar> / of_int b < (2::rat) powi 1023"
  shows "\<exists>v. py_truediv a b = Inr v \<and> nearest_binary64 (of_int a / of_int b) v"
proof (cases "a = 0")
  case True
  have "nearest_binary64 0 0" unfolding nearest_binary64_def using binary64_zero by simp
  with True b show ?thesis by (simp add: py_truediv_def)
next
  case False
  define q :: rat where "q = of_int \<bar>a\<bar> / of_int \<bar>b\<bar>"
  define r where "r = round_quotient \<bar>a\<bar> \<bar>b\<bar>"
  have q_eq: "q = \<bar>of_int a\<bar> / of_int b" using b by (simp add: q_def)
  have apos: "0 < \<bar>a\<bar>" and bpos: "0 < \<bar>b\<bar>" using False b by simp_all
  have "(of_int \<bar>a\<bar> :: rat) / of_int \<bar>b\<bar> < 2 powi 1023"
    using hi q_eq q_def by (simp only:)
  from round_quotient_nearest[OF apos bpos this]
  have near: "nearest_binary64 q r" unfolding q_def r_def .
  then have "binary64 r" unfolding nearest_binary64_def by blast
  then have "r < 2 ^ 1024" by (rule binary64_less)
  then have no_overflow: "\<not> 2 ^ 1024 \<le> r" by (simp only: not_le)
  define v where "v = (if a < 0 then - r else r)"
  have nz: "b \<noteq> 0" and nb: "\<not> b < 0" using b by simp_all
  have "py_truediv a b =
          (if 2 ^ 1024 \<le> r then Inl OverflowError
           else Inr (if (a < 0) = (b < 0) then r else - r))"
    unfolding py_truediv_def Let_def r_def by (simp only: False nz if_False)
  also have "\<dots> = Inr (if (a < 0) = (b < 0) then r else - r)"
    by (simp only: no_overflow if_False)
  also have "(if (a < 0) = (b < 0) then r else - r) = v"
    unfolding v_def using nb by (cases "a < 0") (simp_all only: if_True if_False simp_thms)
  finally have res: "py_truediv a b = Inr v" .
  have quo: "of_int a / of_int b = (if a < 0 then - q else q)"
    by (simp add: q_eq)
  have "nearest_binary64 (of_int a / of_int b) v"
    unfolding quo v_def using near nearest_binary64_uminus[OF near] by simp
  with res show ?thesis by blast
qed

lemma truediv_pow10_nearest:
  assumes a: "\<bar>a\<bar> \<le> 2 ^ 256"
  shows "\<exists>v. truediv_pow10 a d = Inr v \<and> nearest_binary64 (scale a d) v"
proof -
  have pos: "(0::int) < 10 ^ d" by simp
  have p10: "(1::rat) \<le> 10 ^ d" by (simp only: one_le_power one_le_numeral)
  have hi: "\<bar>of_int a\<bar> / of_int (10 ^ d) < (2::rat) powi 1023"
  proof -
    have "\<bar>of_int a :: rat\<bar> / 10 ^ d \<le> \<bar>of_int a\<bar> / 1"
      using p10 by (intro divide_left_mono) simp_all
    also have "\<dots> = of_int \<bar>a\<bar>" by simp
    also have "\<dots> \<le> of_int (2 ^ 256)" using a by (simp only: of_int_le_iff)
    also have "\<dots> < (2::rat) ^ 1023" by simp
    also have "\<dots> = 2 powi 1023" by (simp only: power_int_numeral)
    finally show ?thesis by (simp only: of_int_power of_int_numeral)
  qed
  from py_truediv_nearest[OF pos hi] show ?thesis
    unfolding truediv_pow10_def scale_def by (simp only: of_int_power of_int_numeral)
qed

section \<open>The example, evaluated\<close>

lemma truediv_one: "py_truediv 1000000000000000000 1000000000000000000 = Inr 1"
  by code_simp

lemma truediv_minus_two_and_half: "py_truediv (- 2500000) 1000000 = Inr (- (5 / 2))"
  by code_simp

lemma truediv_e12: "py_truediv 1000000000000000000 1000000 = Inr 1000000000000"
  by code_simp

lemma truediv_tiny:
  "py_truediv (- 2500000) 1000000000000000000
     = Inr (- (6189700196426901 / 2475880078570760549798248448))"
  by code_simp

lemma truediv_tenth: "py_truediv 1 10 = Inr (3602879701896397 / 36028797018963968)"
  by code_simp


lemma truediv_millionth:
  "py_truediv 1 1000000 = Inr (4722366482869645 / 4722366482869645213696)"
  by code_simp


section \<open>The comprehension and the event source\<close>

lemma observe_row_block_missing:
  assumes "w3_blocks (repository self) (blockNumber swap) = None"
  shows "\<exists>err. observe_row self rt is_reverse blockchain swap = Inl err"
  using assms by (simp add: observe_row_def get_block_timestamp_def split: sum.splits)

lemma observe_rows_fail:
  assumes "swap \<in> set swaps"
    and "observe_row self rt is_reverse blockchain swap = Inl err"
  shows "\<exists>err'. observe_rows self rt is_reverse blockchain swaps = Inl err'"
  using assms
proof (induction swaps)
  case Nil
  then show ?case by simp
next
  case (Cons s swaps)
  show ?case
  proof (cases "observe_row self rt is_reverse blockchain s")
    case (Inl e)
    then show ?thesis by simp
  next
    case (Inr r)
    with Cons.prems have "swap \<in> set swaps" by auto
    with Cons.IH Cons.prems(2) obtain err' where
      "observe_rows self rt is_reverse blockchain swaps = Inl err'" by blast
    with Inr show ?thesis by simp
  qed
qed




lemma observe_polls:
  assumes "get_new_entries (repository self) = pollNew"
  shows "snd (observe self rt is_reverse blockchain src) = snd (pollNew src)"
  using assms by (simp add: observe_def split: prod.splits sum.splits)


lemma service_agreement:
  assumes "token0_decimals http = token0_decimals wss"
    and "token1_decimals http = token1_decimals wss"
    and "token0_symbol http = token0_symbol wss"
    and "token1_symbol http = token1_symbol wss"
    and "contract_address http = contract_address wss"
    and "w3_blocks http = w3_blocks wss"
    and "get_new_entries http = get_new_entries wss"
  shows "service_amount0 (UniSwapV3WSSService http) is_reverse e
           = service_amount0 (UniSwapV3WSSService wss) is_reverse e"
    and "service_amount1 (UniSwapV3WSSService http) is_reverse e
           = service_amount1 (UniSwapV3WSSService wss) is_reverse e"
    and "observe (UniSwapV3WSSService http) rt is_reverse blockchain blocks
           = observe (UniSwapV3WSSService wss) rt is_reverse blockchain blocks"
proof -
  define H where "H = UniSwapV3WSSService http"
  define W where "W = UniSwapV3WSSService wss"
  have rep: "repository H = http" "repository W = wss"
    by (simp_all add: H_def W_def UniSwapV3WSSService_def)
  have a0: "service_amount0 H is_reverse s = service_amount0 W is_reverse s" for s
    by (simp add: service_amount0_def rep assms)
  have a1: "service_amount1 H is_reverse s = service_amount1 W is_reverse s" for s
    by (simp add: service_amount1_def rep assms)
  have row: "observe_row H rt is_reverse blockchain s = observe_row W rt is_reverse blockchain s" for s
    by (simp add: observe_row_def a0 a1 get_block_timestamp_def rep assms cong: sum.case_cong)
  have rows: "observe_rows H rt is_reverse blockchain swaps
                = observe_rows W rt is_reverse blockchain swaps" for swaps
    by (induction swaps) (simp_all add: row cong: sum.case_cong)
  have ob: "observe H rt is_reverse blockchain blocks = observe W rt is_reverse blockchain blocks"
    by (simp add: observe_def rows rep assms cong: sum.case_cong prod.case_cong)
  show "service_amount0 (UniSwapV3WSSService http) is_reverse e
           = service_amount0 (UniSwapV3WSSService wss) is_reverse e"
    using a0 unfolding H_def W_def .
  show "service_amount1 (UniSwapV3WSSService http) is_reverse e
           = service_amount1 (UniSwapV3WSSService wss) is_reverse e"
    using a1 unfolding H_def W_def .
  show "observe (UniSwapV3WSSService http) rt is_reverse blockchain blocks
           = observe (UniSwapV3WSSService wss) rt is_reverse blockchain blocks"
    using ob unfolding H_def W_def .
qed

section \<open>Properties of the service\<close>

text \<open>
  C1, as stated, fails when the amount is compared with the exact quotient: with 6
  decimals the reversed \<open>_amount1\<close> of a raw \<open>amount0\<close> of 1 is the float nearest to
  one millionth, which is not one millionth.
\<close>

theorem amount_exact_counterexample:
  "service_amount1 (UniSwapV3WSSService example_repository) True
      (example_swap\<lparr>args := (args example_swap)\<lparr>amount0 := 1\<rparr>\<rparr>)
   \<noteq> Inr (scale (amount0 (args (example_swap\<lparr>args := (args example_swap)\<lparr>amount0 := 1\<rparr>\<rparr>)))
             (token1_decimals (repository (UniSwapV3WSSService example_repository))))"
  by (simp add: service_amount1_def UniSwapV3WSSService_def example_repository_def
      example_swap_def truediv_millionth scale_def)

text \<open>
  C1, amended. For raw legs of magnitude up to \<open>2^256\<close> the four divisions raise
  nothing and give a binary64 float nearest to the specification's exact quotient:
  \<open>_amount0(False, e)\<close> of \<open>amount0 / 10^d0\<close>, \<open>_amount0(True, e)\<close> of
  \<open>amount1 / 10^d0\<close>, \<open>_amount1(False, e)\<close> of \<open>amount1 / 10^d1\<close> and
  \<open>_amount1(True, e)\<close> of \<open>amount0 / 10^d1\<close>. The flag swaps the leg, the exponent
  stays that of the output slot.
\<close>

theorem amount_legs:
  assumes "\<bar>amount0 (args e)\<bar> \<le> 2 ^ 256" and "\<bar>amount1 (args e)\<bar> \<le> 2 ^ 256"
  shows "\<exists>forward0 reverse0 forward1 reverse1.
           service_amount0 self False e = Inr forward0
         \<and> nearest_binary64 (scale (amount0 (args e)) (token0_decimals (repository self))) forward0
         \<and> service_amount0 self True e = Inr reverse0
         \<and> nearest_binary64 (scale (amount1 (args e)) (token0_decimals (repository self))) reverse0
         \<and> service_amount1 self False e = Inr forward1
         \<and> nearest_binary64 (scale (amount1 (args e)) (token1_decimals (repository self))) forward1
         \<and> service_amount1 self True e = Inr reverse1
         \<and> nearest_binary64 (scale (amount0 (args e)) (token1_decimals (repository self))) reverse1"
proof -
  define d0 where "d0 = token0_decimals (repository self)"
  define d1 where "d1 = token1_decimals (repository self)"
  have s: "service_amount0 self False e = truediv_pow10 (amount0 (args e)) d0"
      "service_amount0 self True e = truediv_pow10 (amount1 (args e)) d0"
      "service_amount1 self False e = truediv_pow10 (amount1 (args e)) d1"
      "service_amount1 self True e = truediv_pow10 (amount0 (args e)) d1"
    by (simp_all add: service_amount0_def service_amount1_def truediv_pow10_def d0_def d1_def)
  obtain f0 where f0: "truediv_pow10 (amount0 (args e)) d0 = Inr f0"
      "nearest_binary64 (scale (amount0 (args e)) d0) f0"
    using truediv_pow10_nearest[OF assms(1)] by blast
  obtain r0 where r0: "truediv_pow10 (amount1 (args e)) d0 = Inr r0"
      "nearest_binary64 (scale (amount1 (args e)) d0) r0"
    using truediv_pow10_nearest[OF assms(2)] by blast
  obtain f1 where f1: "truediv_pow10 (amount1 (args e)) d1 = Inr f1"
      "nearest_binary64 (scale (amount1 (args e)) d1) f1"
    using truediv_pow10_nearest[OF assms(2)] by blast
  obtain r1 where r1: "truediv_pow10 (amount0 (args e)) d1 = Inr r1"
      "nearest_binary64 (scale (amount0 (args e)) d1) r1"
    using truediv_pow10_nearest[OF assms(1)] by blast
  show ?thesis
    unfolding s d0_def[symmetric] d1_def[symmetric]
    using f0 r0 f1 r1 by blast
qed

theorem amount_legs_witness:
  "\<bar>amount0 (args example_swap)\<bar> \<le> 2 ^ 256
   \<and> \<bar>amount1 (args example_swap)\<bar> \<le> 2 ^ 256
   \<and> (\<exists>forward0 reverse0 forward1 reverse1.
           service_amount0 (UniSwapV3WSSService example_repository) False example_swap = Inr forward0
         \<and> nearest_binary64 (scale (amount0 (args example_swap))
               (token0_decimals (repository (UniSwapV3WSSService example_repository)))) forward0
         \<and> service_amount0 (UniSwapV3WSSService example_repository) True example_swap = Inr reverse0
         \<and> nearest_binary64 (scale (amount1 (args example_swap))
               (token0_decimals (repository (UniSwapV3WSSService example_repository)))) reverse0
         \<and> service_amount1 (UniSwapV3WSSService example_repository) False example_swap = Inr forward1
         \<and> nearest_binary64 (scale (amount1 (args example_swap))
               (token1_decimals (repository (UniSwapV3WSSService example_repository)))) forward1
         \<and> service_amount1 (UniSwapV3WSSService example_repository) True example_swap = Inr reverse1
         \<and> nearest_binary64 (scale (amount0 (args example_swap))
               (token1_decimals (repository (UniSwapV3WSSService example_repository)))) reverse1)"
proof -
  have h: "\<bar>amount0 (args example_swap)\<bar> \<le> 2 ^ 256" "\<bar>amount1 (args example_swap)\<bar> \<le> 2 ^ 256"
    by (simp_all add: example_swap_def)
  from amount_legs[OF h, of "UniSwapV3WSSService example_repository"] h show ?thesis by blast
qed


text \<open>
  C4. With 18 and 6 decimals and raw amounts \<open>10^18\<close> and \<open>-2500000\<close>, the forward
  amounts are \<open>1.0\<close> and \<open>-2.5\<close>.
\<close>

theorem example_forward:
  assumes "token0_decimals (repository self) = 18" and "token1_decimals (repository self) = 6"
    and "amount0 (args e) = 1000000000000000000" and "amount1 (args e) = - 2500000"
  shows "service_amount0 self False e = Inr 1 \<and> service_amount1 self False e = Inr (- (5 / 2))"
  using assms
  by (simp add: service_amount0_def service_amount1_def truediv_one truediv_minus_two_and_half)

theorem example_forward_witness:
  "token0_decimals (repository (UniSwapV3WSSService example_repository)) = 18
   \<and> token1_decimals (repository (UniSwapV3WSSService example_repository)) = 6
   \<and> amount0 (args example_swap) = 1000000000000000000
   \<and> amount1 (args example_swap) = - 2500000
   \<and> service_amount0 (UniSwapV3WSSService example_repository) False example_swap = Inr 1
   \<and> service_amount1 (UniSwapV3WSSService example_repository) False example_swap = Inr (- (5 / 2))"
proof -
  have h: "token0_decimals (repository (UniSwapV3WSSService example_repository)) = 18"
      "token1_decimals (repository (UniSwapV3WSSService example_repository)) = 6"
      "amount0 (args example_swap) = 1000000000000000000"
      "amount1 (args example_swap) = - 2500000"
    by (simp_all add: UniSwapV3WSSService_def example_repository_def example_swap_def)
  from example_forward[OF h] h show ?thesis by (simp only: simp_thms)
qed


text \<open>
  C5, as stated, fails in its first half: on the example the reversed \<open>_amount0\<close> is
  not \<open>-2.5\<close>.
\<close>

theorem example_reverse_counterexample:
  "service_amount0 (UniSwapV3WSSService example_repository) True example_swap \<noteq> Inr (- (5 / 2))"
  by (simp add: service_amount0_def UniSwapV3WSSService_def example_repository_def
      example_swap_def truediv_tiny)

text \<open>
  C5, amended. With 18 and 6 decimals and raw amounts \<open>10^18\<close> and \<open>-2500000\<close>, the
  reversed \<open>_amount0\<close> is the float nearest to \<open>-2500000 / 10^18\<close>, that is
  \<open>-6189700196426901 / 2^91\<close> (about \<open>-2.5e-12\<close>), and the reversed \<open>_amount1\<close>
  is \<open>10^18 / 10^6 = 10^12\<close>.
\<close>

theorem example_reverse:
  assumes "token0_decimals (repository self) = 18" and "token1_decimals (repository self) = 6"
    and "amount0 (args e) = 1000000000000000000" and "amount1 (args e) = - 2500000"
  shows "service_amount0 self True e = Inr (- (6189700196426901 / 2 ^ 91))
       \<and> service_amount1 self True e = Inr 1000000000000"
  using assms
  by (simp add: service_amount0_def service_amount1_def truediv_tiny truediv_e12)

theorem example_reverse_witness:
  "token0_decimals (repository (UniSwapV3WSSService example_repository)) = 18
   \<and> token1_decimals (repository (UniSwapV3WSSService example_repository)) = 6
   \<and> amount0 (args example_swap) = 1000000000000000000
   \<and> amount1 (args example_swap) = - 2500000
   \<and> service_amount0 (UniSwapV3WSSService example_repository) True example_swap
       = Inr (- (6189700196426901 / 2 ^ 91))
   \<and> service_amount1 (UniSwapV3WSSService example_repository) True example_swap
       = Inr 1000000000000"
proof -
  have h: "token0_decimals (repository (UniSwapV3WSSService example_repository)) = 18"
      "token1_decimals (repository (UniSwapV3WSSService example_repository)) = 6"
      "amount0 (args example_swap) = 1000000000000000000"
      "amount1 (args example_swap) = - 2500000"
    by (simp_all add: UniSwapV3WSSService_def example_repository_def example_swap_def)
  from example_reverse[OF h] h show ?thesis by blast
qed
text \<open>
  C2, as the specification states it, fails on the example: forward the pair is
  \<open>{1.0, -2.5}\<close>, reversed it is \<open>{10^12, -2.5e-12}\<close>, because each slot keeps its
  own decimals.
\<close>

theorem reverse_pair_counterexample:
  "{service_amount0 (UniSwapV3WSSService example_repository) False example_swap,
    service_amount1 (UniSwapV3WSSService example_repository) False example_swap}
   \<noteq> {service_amount1 (UniSwapV3WSSService example_repository) True example_swap,
       service_amount0 (UniSwapV3WSSService example_repository) True example_swap}"
  by (simp add: service_amount0_def service_amount1_def UniSwapV3WSSService_def
      example_repository_def example_swap_def truediv_one truediv_minus_two_and_half
      truediv_e12 truediv_tiny doubleton_eq_iff)

text \<open>
  C2, amended. When both tokens have the same number of decimals, the forward pair
  and the reversed pair of amounts are equal as unordered pairs.
\<close>

theorem reverse_pair_equal_decimals:
  assumes "token0_decimals (repository self) = token1_decimals (repository self)"
  shows "{service_amount0 self False e, service_amount1 self False e}
         = {service_amount1 self True e, service_amount0 self True e}"
  using assms by (simp add: service_amount0_def service_amount1_def)

theorem reverse_pair_equal_decimals_witness:
  "token0_decimals (repository (UniSwapV3WSSService (example_repository\<lparr>token1_decimals := 18\<rparr>)))
     = token1_decimals (repository (UniSwapV3WSSService (example_repository\<lparr>token1_decimals := 18\<rparr>)))
   \<and> {service_amount0 (UniSwapV3WSSService (example_repository\<lparr>token1_decimals := 18\<rparr>)) False example_swap,
       service_amount1 (UniSwapV3WSSService (example_repository\<lparr>token1_decimals := 18\<rparr>)) False example_swap}
      = {service_amount1 (UniSwapV3WSSService (example_repository\<lparr>token1_decimals := 18\<rparr>)) True example_swap,
         service_amount0 (UniSwapV3WSSService (example_repository\<lparr>token1_decimals := 18\<rparr>)) True example_swap}"
proof -
  have h: "token0_decimals (repository (UniSwapV3WSSService (example_repository\<lparr>token1_decimals := 18\<rparr>)))
     = token1_decimals (repository (UniSwapV3WSSService (example_repository\<lparr>token1_decimals := 18\<rparr>)))"
    by (simp add: UniSwapV3WSSService_def example_repository_def)
  from reverse_pair_equal_decimals[OF h, of example_swap] h show ?thesis by (simp only: simp_thms)
qed

text \<open>
  C3, as stated, fails: with one decimal the raw amount 1 gives the float nearest to
  one tenth, which is not one tenth.
\<close>

theorem exact_division_counterexample:
  "service_amount0 (UniSwapV3WSSService (example_repository\<lparr>token0_decimals := 1\<rparr>)) False
      (example_swap\<lparr>args := (args example_swap)\<lparr>amount0 := 1\<rparr>\<rparr>)
   \<noteq> Inr (of_int 1 / 10 ^ 1)"
  by (simp add: service_amount0_def UniSwapV3WSSService_def example_repository_def
      example_swap_def truediv_tenth)

text \<open>
  C3, amended. For raw legs of magnitude up to \<open>2^256\<close> and decimals up to 255 the
  division raises nothing, and each amount is within a relative error of \<open>2^-53\<close> of
  the exact ratio of the leg it is scaled from.
\<close>

theorem amount_accuracy:
  assumes "token0_decimals (repository self) \<le> 255" and "token1_decimals (repository self) \<le> 255"
    and "\<bar>amount0 (args e)\<bar> \<le> 2 ^ 256" and "\<bar>amount1 (args e)\<bar> \<le> 2 ^ 256"
  shows "\<exists>v0 v1.
           service_amount0 self is_reverse e = Inr v0
         \<and> service_amount1 self is_reverse e = Inr v1
         \<and> \<bar>v0 - of_int (if is_reverse then amount1 (args e) else amount0 (args e))
                   / 10 ^ token0_decimals (repository self)\<bar>
             \<le> \<bar>of_int (if is_reverse then amount1 (args e) else amount0 (args e))
                   / 10 ^ token0_decimals (repository self)\<bar> / 2 ^ 53
         \<and> \<bar>v1 - of_int (if is_reverse then amount0 (args e) else amount1 (args e))
                   / 10 ^ token1_decimals (repository self)\<bar>
             \<le> \<bar>of_int (if is_reverse then amount0 (args e) else amount1 (args e))
                   / 10 ^ token1_decimals (repository self)\<bar> / 2 ^ 53"
proof -
  define d0 where "d0 = token0_decimals (repository self)"
  define d1 where "d1 = token1_decimals (repository self)"
  define r0 where "r0 = (if is_reverse then amount1 (args e) else amount0 (args e))"
  define r1 where "r1 = (if is_reverse then amount0 (args e) else amount1 (args e))"
  have b: "d0 \<le> 255" "d1 \<le> 255" "\<bar>r0\<bar> \<le> 2 ^ 256" "\<bar>r1\<bar> \<le> 2 ^ 256"
    using assms by (simp_all add: d0_def d1_def r0_def r1_def del: power_numeral)
  have s0: "service_amount0 self is_reverse e = truediv_pow10 r0 d0"
    by (simp add: service_amount0_def truediv_pow10_def r0_def d0_def)
  have s1: "service_amount1 self is_reverse e = truediv_pow10 r1 d1"
    by (simp add: service_amount1_def truediv_pow10_def r1_def d1_def)
  obtain v0 where v0: "truediv_pow10 r0 d0 = Inr v0"
      "\<bar>v0 - of_int r0 / 10 ^ d0\<bar> \<le> \<bar>of_int r0 / 10 ^ d0\<bar> / 2 ^ 53"
    using truediv_pow10_accuracy[OF b(1) b(3)] by blast
  obtain v1 where v1: "truediv_pow10 r1 d1 = Inr v1"
      "\<bar>v1 - of_int r1 / 10 ^ d1\<bar> \<le> \<bar>of_int r1 / 10 ^ d1\<bar> / 2 ^ 53"
    using truediv_pow10_accuracy[OF b(2) b(4)] by blast
  show ?thesis
    unfolding s0 s1 d0_def[symmetric] d1_def[symmetric] r0_def[symmetric] r1_def[symmetric]
    using v0 v1 by blast
qed


theorem amount_accuracy_witness:
  "token0_decimals (repository (UniSwapV3WSSService example_repository)) \<le> 255
   \<and> token1_decimals (repository (UniSwapV3WSSService example_repository)) \<le> 255
   \<and> \<bar>amount0 (args example_swap)\<bar> \<le> 2 ^ 256
   \<and> \<bar>amount1 (args example_swap)\<bar> \<le> 2 ^ 256
   \<and> (\<exists>v0 v1.
           service_amount0 (UniSwapV3WSSService example_repository) True example_swap = Inr v0
         \<and> service_amount1 (UniSwapV3WSSService example_repository) True example_swap = Inr v1
         \<and> \<bar>v0 - of_int (if True then amount1 (args example_swap) else amount0 (args example_swap))
                   / 10 ^ token0_decimals (repository (UniSwapV3WSSService example_repository))\<bar>
             \<le> \<bar>of_int (if True then amount1 (args example_swap) else amount0 (args example_swap))
                   / 10 ^ token0_decimals (repository (UniSwapV3WSSService example_repository))\<bar> / 2 ^ 53
         \<and> \<bar>v1 - of_int (if True then amount0 (args example_swap) else amount1 (args example_swap))
                   / 10 ^ token1_decimals (repository (UniSwapV3WSSService example_repository))\<bar>
             \<le> \<bar>of_int (if True then amount0 (args example_swap) else amount1 (args example_swap))
                   / 10 ^ token1_decimals (repository (UniSwapV3WSSService example_repository))\<bar> / 2 ^ 53)"
proof -
  have h: "token0_decimals (repository (UniSwapV3WSSService example_repository)) \<le> 255"
      "token1_decimals (repository (UniSwapV3WSSService example_repository)) \<le> 255"
      "\<bar>amount0 (args example_swap)\<bar> \<le> 2 ^ 256"
      "\<bar>amount1 (args example_swap)\<bar> \<le> 2 ^ 256"
    by (simp_all add: UniSwapV3WSSService_def example_repository_def example_swap_def)
  from amount_accuracy[OF h, of True] h show ?thesis by blast
qed
text \<open>
  C10. For raw legs of magnitude up to \<open>2^256\<close> and decimals up to 255 each amount
  has the sign of the raw leg it is scaled from: with the reverse flag \<open>_amount0\<close>
  has the sign of \<open>amount1\<close> and \<open>_amount1\<close> the sign of \<open>amount0\<close>.
\<close>

theorem amount_sign:
  assumes "token0_decimals (repository self) \<le> 255" and "token1_decimals (repository self) \<le> 255"
    and "\<bar>amount0 (args e)\<bar> \<le> 2 ^ 256" and "\<bar>amount1 (args e)\<bar> \<le> 2 ^ 256"
  shows "\<exists>v0 v1.
           service_amount0 self is_reverse e = Inr v0
         \<and> service_amount1 self is_reverse e = Inr v1
         \<and> sgn v0 = sgn (of_int (if is_reverse then amount1 (args e) else amount0 (args e)))
         \<and> sgn v1 = sgn (of_int (if is_reverse then amount0 (args e) else amount1 (args e)))"
proof -
  define d0 where "d0 = token0_decimals (repository self)"
  define d1 where "d1 = token1_decimals (repository self)"
  define r0 where "r0 = (if is_reverse then amount1 (args e) else amount0 (args e))"
  define r1 where "r1 = (if is_reverse then amount0 (args e) else amount1 (args e))"
  have b: "d0 \<le> 255" "d1 \<le> 255" "\<bar>r0\<bar> \<le> 2 ^ 256" "\<bar>r1\<bar> \<le> 2 ^ 256"
    using assms by (simp_all add: d0_def d1_def r0_def r1_def del: power_numeral)
  have s0: "service_amount0 self is_reverse e = truediv_pow10 r0 d0"
    by (simp add: service_amount0_def truediv_pow10_def r0_def d0_def)
  have s1: "service_amount1 self is_reverse e = truediv_pow10 r1 d1"
    by (simp add: service_amount1_def truediv_pow10_def r1_def d1_def)
  obtain v0 where v0: "truediv_pow10 r0 d0 = Inr v0" "sgn v0 = sgn (of_int r0)"
    using truediv_pow10_accuracy[OF b(1) b(3)] by blast
  obtain v1 where v1: "truediv_pow10 r1 d1 = Inr v1" "sgn v1 = sgn (of_int r1)"
    using truediv_pow10_accuracy[OF b(2) b(4)] by blast
  show ?thesis
    unfolding s0 s1 r0_def[symmetric] r1_def[symmetric]
    using v0 v1 by blast
qed


theorem amount_sign_witness:
  "token0_decimals (repository (UniSwapV3WSSService example_repository)) \<le> 255
   \<and> token1_decimals (repository (UniSwapV3WSSService example_repository)) \<le> 255
   \<and> \<bar>amount0 (args example_swap)\<bar> \<le> 2 ^ 256
   \<and> \<bar>amount1 (args example_swap)\<bar> \<le> 2 ^ 256
   \<and> (\<exists>v0 v1.
           service_amount0 (UniSwapV3WSSService example_repository) True example_swap = Inr v0
         \<and> service_amount1 (UniSwapV3WSSService example_repository) True example_swap = Inr v1
         \<and> sgn v0 = sgn (of_int (if True then amount1 (args example_swap) else amount0 (args example_swap)))
         \<and> sgn v1 = sgn (of_int (if True then amount0 (args example_swap) else amount1 (args example_swap))))"
proof -
  have h: "token0_decimals (repository (UniSwapV3WSSService example_repository)) \<le> 255"
      "token1_decimals (repository (UniSwapV3WSSService example_repository)) \<le> 255"
      "\<bar>amount0 (args example_swap)\<bar> \<le> 2 ^ 256"
      "\<bar>amount1 (args example_swap)\<bar> \<le> 2 ^ 256"
    by (simp_all add: UniSwapV3WSSService_def example_repository_def example_swap_def)
  from amount_sign[OF h, of True] h show ?thesis by blast
qed
text \<open>
  C6. If the node does not know the block of one event of the batch, running
  \<open>observe\<close> raises and yields nothing: no record of the batch is emitted.
\<close>

theorem observe_lookup_failure:
  assumes "get_new_entries (repository self) blocks = (Inr swaps, blocks')"
    and "swap \<in> set swaps"
    and "w3_blocks (repository self) (blockNumber swap) = None"
  shows "\<exists>err. observe self rt is_reverse blockchain blocks = (Inl err, blocks')"
proof -
  obtain e where "observe_row self rt is_reverse blockchain swap = Inl e"
    using observe_row_block_missing[OF assms(3)] by blast
  with assms(2) obtain err where "observe_rows self rt is_reverse blockchain swaps = Inl err"
    using observe_rows_fail by blast
  with assms(1) show ?thesis by (simp add: observe_def)
qed


theorem observe_lookup_failure_witness:
  "get_new_entries (repository (UniSwapV3WSSService example_unknown_block_repository)) ()
     = (Inr [example_swap, example_later_swap], ())
   \<and> example_later_swap \<in> set [example_swap, example_later_swap]
   \<and> w3_blocks (repository (UniSwapV3WSSService example_unknown_block_repository))
        (blockNumber example_later_swap) = None
   \<and> (\<exists>err. observe (UniSwapV3WSSService example_unknown_block_repository) example_runtime
                False ''ethereum'' () = (Inl err, ()))"
proof -
  have h1: "get_new_entries (repository (UniSwapV3WSSService example_unknown_block_repository)) ()
     = (Inr [example_swap, example_later_swap], ())"
    by (simp add: UniSwapV3WSSService_def example_unknown_block_repository_def
        example_repository_def)
  have h2: "example_later_swap \<in> set [example_swap, example_later_swap]" by simp
  have h3: "w3_blocks (repository (UniSwapV3WSSService example_unknown_block_repository))
        (blockNumber example_later_swap) = None"
    by (simp add: UniSwapV3WSSService_def example_unknown_block_repository_def
        example_repository_def example_later_swap_def)
  from observe_lookup_failure[OF h1 h2 h3, of example_runtime False "''ethereum''"] h1 h2 h3
  show ?thesis by blast
qed


text \<open>
  C9. The HTTP service is the WebSocket service's code bound to the HTTP repository:
  its repository is the HTTP one whatever the WebSocket class was bound to, and
  \<open>_amount0\<close>, \<open>_amount1\<close> and \<open>observe\<close> compute as those of a WebSocket service on
  that repository. So when the two repositories agree on what the service reads, the
  two services give the same results.
\<close>

theorem http_same_computation:
  "repository (UniSwapV3HTTPService wss http) = http
   \<and> service_amount0 (UniSwapV3HTTPService wss http) is_reverse e
       = service_amount0 (UniSwapV3WSSService http) is_reverse e
   \<and> service_amount1 (UniSwapV3HTTPService wss http) is_reverse e
       = service_amount1 (UniSwapV3WSSService http) is_reverse e
   \<and> observe (UniSwapV3HTTPService wss http) rt is_reverse blockchain blocks
       = observe (UniSwapV3WSSService http) rt is_reverse blockchain blocks
   \<and> (token0_decimals http = token0_decimals wss
        \<and> token1_decimals http = token1_decimals wss
        \<and> token0_symbol http = token0_symbol wss
        \<and> token1_symbol http = token1_symbol wss
        \<and> contract_address http = contract_address wss
        \<and> w3_blocks http = w3_blocks wss
        \<and> get_new_entries http = get_new_entries wss
      \<longrightarrow> service_amount0 (UniSwapV3HTTPService wss http) is_reverse e
            = service_amount0 (UniSwapV3WSSService wss) is_reverse e
        \<and> service_amount1 (UniSwapV3HTTPService wss http) is_reverse e
            = service_amount1 (UniSwapV3WSSService wss) is_reverse e
        \<and> observe (UniSwapV3HTTPService wss http) rt is_reverse blockchain blocks
            = observe (UniSwapV3WSSService wss) rt is_reverse blockchain blocks)"
proof -
  have bound: "UniSwapV3HTTPService wss http = UniSwapV3WSSService http"
    by (simp add: UniSwapV3HTTPService_def UniSwapV3WSSService_def)
  have rep: "repository (UniSwapV3HTTPService wss http) = http"
    by (simp add: UniSwapV3HTTPService_def UniSwapV3WSSService_def)
  show ?thesis
    unfolding bound using service_agreement[of http wss]
    by (simp add: UniSwapV3WSSService_def)
qed

theorem http_same_computation_witness:
  "token0_decimals (example_repository\<lparr>transport_kind := HTTP\<rparr>) = token0_decimals example_repository
   \<and> token1_decimals (example_repository\<lparr>transport_kind := HTTP\<rparr>) = token1_decimals example_repository
   \<and> token0_symbol (example_repository\<lparr>transport_kind := HTTP\<rparr>) = token0_symbol example_repository
   \<and> token1_symbol (example_repository\<lparr>transport_kind := HTTP\<rparr>) = token1_symbol example_repository
   \<and> contract_address (example_repository\<lparr>transport_kind := HTTP\<rparr>) = contract_address example_repository
   \<and> w3_blocks (example_repository\<lparr>transport_kind := HTTP\<rparr>) = w3_blocks example_repository
   \<and> get_new_entries (example_repository\<lparr>transport_kind := HTTP\<rparr>) = get_new_entries example_repository
   \<and> example_repository\<lparr>transport_kind := HTTP\<rparr> \<noteq> example_repository
   \<and> repository (UniSwapV3HTTPService example_repository (example_repository\<lparr>transport_kind := HTTP\<rparr>))
       = example_repository\<lparr>transport_kind := HTTP\<rparr>
   \<and> service_amount0 (UniSwapV3HTTPService example_repository (example_repository\<lparr>transport_kind := HTTP\<rparr>))
         True example_swap
       = service_amount0 (UniSwapV3WSSService example_repository) True example_swap
   \<and> service_amount1 (UniSwapV3HTTPService example_repository (example_repository\<lparr>transport_kind := HTTP\<rparr>))
         True example_swap
       = service_amount1 (UniSwapV3WSSService example_repository) True example_swap
   \<and> observe (UniSwapV3HTTPService example_repository (example_repository\<lparr>transport_kind := HTTP\<rparr>))
         example_runtime True ''ethereum'' ()
       = observe (UniSwapV3WSSService example_repository) example_runtime True ''ethereum'' ()"
proof -
  have h: "token0_decimals (example_repository\<lparr>transport_kind := HTTP\<rparr>) = token0_decimals example_repository"
    "token1_decimals (example_repository\<lparr>transport_kind := HTTP\<rparr>) = token1_decimals example_repository"
    "token0_symbol (example_repository\<lparr>transport_kind := HTTP\<rparr>) = token0_symbol example_repository"
    "token1_symbol (example_repository\<lparr>transport_kind := HTTP\<rparr>) = token1_symbol example_repository"
    "contract_address (example_repository\<lparr>transport_kind := HTTP\<rparr>) = contract_address example_repository"
    "w3_blocks (example_repository\<lparr>transport_kind := HTTP\<rparr>) = w3_blocks example_repository"
    "get_new_entries (example_repository\<lparr>transport_kind := HTTP\<rparr>) = get_new_entries example_repository"
    by simp_all
  have d: "example_repository\<lparr>transport_kind := HTTP\<rparr> \<noteq> example_repository"
  proof
    assume "example_repository\<lparr>transport_kind := HTTP\<rparr> = example_repository"
    then have "transport_kind (example_repository\<lparr>transport_kind := HTTP\<rparr>)
                 = transport_kind example_repository" by (rule arg_cong)
    then show False by (simp add: example_repository_def)
  qed
  from http_same_computation[where wss = example_repository
      and http = "example_repository\<lparr>transport_kind := HTTP\<rparr>"
      and is_reverse = True and e = example_swap
      and rt = example_runtime and blockchain = "''ethereum''" and blocks = "()"] h d
  show ?thesis by blast
qed




end
